theory Spec2Isabelle
  imports Complex_Main "HOL-Library.Monad_Syntax"
begin

chapter \<open>The design-pattern lectures: toy classes as HOL definitions\<close>

text \<open>
  Every lecture of the repository is a handful of Python classes with a demonstration
  snippet. Each lecture is embedded on its own: objects live in a heap (a list, an
  address is an index, allocation appends), attributes are fields, methods take the heap
  and return the new one, a raised exception is a value, printed lines are a list of
  strings. The arithmetic of the examples is Python's: \<open>int\<close> is unbounded, \<open>float\<close> is
  IEEE 754 binary64 with round-to-nearest, ties-to-even.
\<close>

section \<open>Python numbers\<close>

subsection \<open>Exceptions\<close>

datatype py_error = OverflowError | ValueError | OSError | AttributeError

subsection \<open>binary64\<close>

text \<open>
  A float is a finite value (carried as the rational it denotes; \<open>Fin 0\<close> is \<open>+0.0\<close>),
  negative zero, an infinity or NaN.
\<close>

datatype pyfloat = Fin rat | NegZero | PInf | NInf | NaN

text \<open>\<open>int.bit_length\<close>: the number of binary digits of a positive integer.\<close>

function bit_length :: "int \<Rightarrow> int" where
  "bit_length n = (if n \<le> 0 then 0 else 1 + bit_length (n div 2))"
  by pat_completeness auto
termination
  by (relation "measure nat") auto

declare bit_length.simps [simp del]

text \<open>The binary exponent of a positive rational: \<open>2 powi ilog2 x \<le> x < 2 powi (ilog2 x + 1)\<close>.\<close>

definition ilog2 :: "rat \<Rightarrow> int" where
  "ilog2 x = (if 1 \<le> x then bit_length \<lfloor>x\<rfloor> - 1 else - bit_length (\<lceil>1 / x\<rceil> - 1))"

definition round_half_even :: "rat \<Rightarrow> int" where
  "round_half_even x =
     (let f = \<lfloor>x\<rfloor>; d = x - of_int f
      in if d < 1 / 2 then f
         else if 1 / 2 < d then f + 1
         else if even f then f else f + 1)"

text \<open>
  Rounding an exact result to binary64: 53 significant bits, the least exponent
  \<open>- 1022\<close> (below it the spacing stays \<open>2 powi - 1074\<close>), overflow to an infinity from
  \<open>2 powi 1024\<close> on, and a result rounded to zero keeps the sign.
\<close>

definition round_double :: "rat \<Rightarrow> pyfloat" where
  "round_double x =
     (if x = 0 then Fin 0
      else let e = max (ilog2 \<bar>x\<bar>) (- 1022);
               q = 2 powi (e - 52);
               y = of_int (round_half_even (x / q)) * q
           in if 2 powi 1024 \<le> y then PInf
              else if y \<le> - (2 powi 1024) then NInf
              else if y = 0 then (if x < 0 then NegZero else Fin 0)
              else Fin y)"

definition is_zero :: "pyfloat \<Rightarrow> bool" where
  "is_zero d = (d = Fin 0 \<or> d = NegZero)"

definition is_inf :: "pyfloat \<Rightarrow> bool" where
  "is_inf d = (d = PInf \<or> d = NInf)"

fun sign_bit :: "pyfloat \<Rightarrow> bool" where
  "sign_bit (Fin x) = (x < 0)"
| "sign_bit NegZero = True"
| "sign_bit NInf = True"
| "sign_bit PInf = False"
| "sign_bit NaN = False"

fun fval :: "pyfloat \<Rightarrow> rat" where
  "fval (Fin x) = x"
| "fval d = 0"

definition signed_zero :: "bool \<Rightarrow> pyfloat" where
  "signed_zero s = (if s then NegZero else Fin 0)"

definition signed_inf :: "bool \<Rightarrow> pyfloat" where
  "signed_inf s = (if s then NInf else PInf)"

definition float_mul :: "pyfloat \<Rightarrow> pyfloat \<Rightarrow> pyfloat" where
  "float_mul a b =
     (if a = NaN \<or> b = NaN then NaN
      else if is_inf a \<or> is_inf b then
        (if is_zero a \<or> is_zero b then NaN else signed_inf (sign_bit a \<noteq> sign_bit b))
      else if is_zero a \<or> is_zero b then signed_zero (sign_bit a \<noteq> sign_bit b)
      else round_double (fval a * fval b))"

definition float_add :: "pyfloat \<Rightarrow> pyfloat \<Rightarrow> pyfloat" where
  "float_add a b =
     (if a = NaN \<or> b = NaN then NaN
      else if is_inf a then (if is_inf b \<and> a \<noteq> b then NaN else a)
      else if is_inf b then b
      else if is_zero a \<and> is_zero b then signed_zero (sign_bit a \<and> sign_bit b)
      else if fval a + fval b = 0 then Fin 0
      else round_double (fval a + fval b))"

fun frank :: "pyfloat \<Rightarrow> int" where
  "frank PInf = 1"
| "frank NInf = - 1"
| "frank d = 0"

definition float_lt :: "pyfloat \<Rightarrow> pyfloat \<Rightarrow> bool" where
  "float_lt a b =
     (a \<noteq> NaN \<and> b \<noteq> NaN \<and>
      (frank a < frank b \<or> (frank a = frank b \<and> fval a < fval b)))"

text \<open>A float literal denotes the binary64 value nearest to its decimal value.\<close>

definition float_literal :: "rat \<Rightarrow> pyfloat" where
  "float_literal x = round_double x"

subsection \<open>\<open>int\<close> and \<open>float\<close> in one expression\<close>

datatype pynum = PInt int | PFloat pyfloat

text \<open>
  An \<open>int\<close> meeting a \<open>float\<close> in \<open>*\<close> is converted first; the conversion rounds
  correctly and raises \<open>OverflowError\<close> when the integer is beyond the finite range.
\<close>

definition int_to_float :: "int \<Rightarrow> py_error + pyfloat" where
  "int_to_float n =
     (let d = round_double (of_int n)
      in if is_inf d then Inl OverflowError else Inr d)"

fun py_mul :: "pynum \<Rightarrow> pynum \<Rightarrow> py_error + pynum" where
  "py_mul (PInt a) (PInt b) = Inr (PInt (a * b))"
| "py_mul (PInt a) (PFloat y) =
     (case int_to_float a of Inl e \<Rightarrow> Inl e | Inr x \<Rightarrow> Inr (PFloat (float_mul x y)))"
| "py_mul (PFloat x) (PInt b) =
     (case int_to_float b of Inl e \<Rightarrow> Inl e | Inr y \<Rightarrow> Inr (PFloat (float_mul x y)))"
| "py_mul (PFloat x) (PFloat y) = Inr (PFloat (float_mul x y))"

text \<open>Comparison of an \<open>int\<close> with a \<open>float\<close> is exact, without conversion.\<close>

fun py_lt :: "pynum \<Rightarrow> pynum \<Rightarrow> bool" where
  "py_lt (PInt a) (PInt b) = (a < b)"
| "py_lt (PInt a) (PFloat y) = float_lt (Fin (of_int a)) y"
| "py_lt (PFloat x) (PInt b) = float_lt x (Fin (of_int b))"
| "py_lt (PFloat x) (PFloat y) = float_lt x y"

section \<open>Factory Method: the employee hiring system\<close>

text \<open>
  \<open>Employee.__init__\<close> stores \<open>name\<close> and \<open>salary\<close>; the three subclasses add no
  attribute, so an employee object is its class and these two attributes. A method
  receives the object and hands it back next to its result, which makes an assignment
  to an attribute inside a method visible.
\<close>

datatype employee_class = FullTimeEmployee | PartTimeEmployee | Contractor

record employee =
  cls :: employee_class
  name :: string
  salary :: pynum

definition Employee_init :: "employee_class \<Rightarrow> string \<Rightarrow> pynum \<Rightarrow> employee" where
  "Employee_init c n s = \<lparr>cls = c, name = n, salary = s\<rparr>"

definition FullTimeEmployee_calculate_bonus :: "employee \<Rightarrow> (py_error + pynum) \<times> employee" where
  "FullTimeEmployee_calculate_bonus self =
     (py_mul (salary self) (PFloat (float_literal (1 / 10))), self)"

definition PartTimeEmployee_calculate_bonus :: "employee \<Rightarrow> (py_error + pynum) \<times> employee" where
  "PartTimeEmployee_calculate_bonus self =
     (py_mul (salary self) (PFloat (float_literal (5 / 100))), self)"

definition Contractor_calculate_bonus :: "employee \<Rightarrow> (py_error + pynum) \<times> employee" where
  "Contractor_calculate_bonus self = (Inr (PInt 0), self)"

text \<open>A call \<open>e.calculate_bonus()\<close> is dispatched on the class of \<open>e\<close>.\<close>

definition calculate_bonus :: "employee \<Rightarrow> (py_error + pynum) \<times> employee" where
  "calculate_bonus self =
     (case cls self of
        FullTimeEmployee \<Rightarrow> FullTimeEmployee_calculate_bonus self
      | PartTimeEmployee \<Rightarrow> PartTimeEmployee_calculate_bonus self
      | Contractor \<Rightarrow> Contractor_calculate_bonus self)"

definition type_name :: "employee \<Rightarrow> string" where
  "type_name self =
     (case cls self of
        FullTimeEmployee \<Rightarrow> ''FullTimeEmployee''
      | PartTimeEmployee \<Rightarrow> ''PartTimeEmployee''
      | Contractor \<Rightarrow> ''Contractor'')"

definition HRManager_make_employee :: "string \<Rightarrow> pynum \<Rightarrow> employee" where
  "HRManager_make_employee n s = Employee_init FullTimeEmployee n s"

definition Recruiter_make_employee :: "string \<Rightarrow> pynum \<Rightarrow> employee" where
  "Recruiter_make_employee n s =
     (if py_lt s (PInt 50000) then Employee_init PartTimeEmployee n s
      else Employee_init Contractor n s)"

section \<open>Objects in a heap\<close>

text \<open>
  A heap is the list of the objects created so far and an address is an index into it.
  A new object goes to the end, so it gets an address no older object has.
\<close>

definition lookup :: "'a list \<Rightarrow> nat \<Rightarrow> 'a option" where
  "lookup h a = (if a < length h then Some (h ! a) else None)"

definition alloc :: "'a list \<Rightarrow> 'a \<Rightarrow> nat \<times> 'a list" where
  "alloc h x = (length h, h @ [x])"

section \<open>Prototype: cloning a product\<close>

text \<open>
  A \<open>ProductPrototype\<close> has the attributes \<open>name\<close> and \<open>price\<close>. Their values are
  immutable atoms (the snippet uses a \<open>str\<close> and an \<open>int\<close>), for which \<open>deepcopy\<close>
  returns the value itself; \<open>deepcopy\<close> of the instance makes a new instance from the
  copies of its attributes.
\<close>

record ('n, 'p) ProductPrototype =
  name :: 'n
  price :: 'p

definition ProductPrototype_init ::
  "('n, 'p) ProductPrototype list \<Rightarrow> 'n \<Rightarrow> 'p \<Rightarrow> nat \<times> ('n, 'p) ProductPrototype list" where
  "ProductPrototype_init h n r = alloc h \<lparr>name = n, price = r\<rparr>"

definition deepcopy_atom :: "'a \<Rightarrow> 'a" where
  "deepcopy_atom v = v"

definition deepcopy ::
  "('n, 'p) ProductPrototype list \<Rightarrow> nat \<Rightarrow> (nat \<times> ('n, 'p) ProductPrototype list) option" where
  "deepcopy h a =
     (case lookup h a of
        None \<Rightarrow> None
      | Some x \<Rightarrow>
          Some (alloc h \<lparr>name = deepcopy_atom (ProductPrototype.name x),
                         price = deepcopy_atom (price x)\<rparr>))"

definition clone ::
  "('n, 'p) ProductPrototype list \<Rightarrow> nat \<Rightarrow> (nat \<times> ('n, 'p) ProductPrototype list) option" where
  "clone h self = deepcopy h self"

text \<open>The assignments \<open>obj.name = v\<close> and \<open>obj.price = v\<close>.\<close>

definition set_name ::
  "('n, 'p) ProductPrototype list \<Rightarrow> nat \<Rightarrow> 'n \<Rightarrow> ('n, 'p) ProductPrototype list option" where
  "set_name h a v =
     (case lookup h a of None \<Rightarrow> None | Some x \<Rightarrow> Some (h[a := x\<lparr>name := v\<rparr>]))"

definition set_price ::
  "('n, 'p) ProductPrototype list \<Rightarrow> nat \<Rightarrow> 'p \<Rightarrow> ('n, 'p) ProductPrototype list option" where
  "set_price h a v =
     (case lookup h a of None \<Rightarrow> None | Some x \<Rightarrow> Some (h[a := x\<lparr>price := v\<rparr>]))"

section \<open>Singleton: the logger\<close>

text \<open>
  The state of the lecture is the class attribute \<open>Logger._instance\<close> and the \<open>Logger\<close>
  objects created so far. A \<open>Logger\<close> object has the attribute \<open>_log_file\<close> once it has
  been assigned: the file opened, as its path and mode. Whether \<open>open\<close> succeeds is the
  operating system's answer, a parameter of the call; when it fails \<open>open\<close> raises
  \<open>OSError\<close>, after \<open>_instance\<close> has been assigned.
\<close>

record Logger =
  log_file :: "(string \<times> string) option"

record Logger_state =
  Logger_instance :: "nat option"
  loggers :: "Logger list"

definition Logger_class :: Logger_state where
  "Logger_class = \<lparr>Logger_instance = None, loggers = []\<rparr>"

definition Logger_new :: "bool \<Rightarrow> Logger_state \<Rightarrow> (py_error + nat) \<times> Logger_state" where
  "Logger_new open_ok st =
     (case Logger_instance st of
        None \<Rightarrow>
          (let (a, h) = alloc (loggers st) \<lparr>log_file = None\<rparr>;
               st1 = st\<lparr>Logger_instance := Some a, loggers := h\<rparr>
           in if open_ok
              then (Inr a, st1\<lparr>loggers := h[a := \<lparr>log_file = Some (''application.log'', ''a'')\<rparr>]\<rparr>)
              else (Inl OSError, st1))
      | Some a \<Rightarrow> (Inr a, st))"

text \<open>What holds of the state between two calls: no logger yet, or the one logger.\<close>

definition Logger_inv :: "Logger_state \<Rightarrow> bool" where
  "Logger_inv st =
     ((Logger_instance st = None \<and> loggers st = [])
      \<or> (Logger_instance st = Some 0 \<and> length (loggers st) = 1))"

text \<open>
  Any number of evaluations of \<open>Logger()\<close>, one after the other, each with the answer
  \<open>open\<close> would get; the outcome of each is recorded.
\<close>

fun Logger_calls :: "bool list \<Rightarrow> Logger_state \<Rightarrow> (py_error + nat) list \<times> Logger_state" where
  "Logger_calls [] st = ([], st)"
| "Logger_calls (ok # oks) st =
     (let (r, st1) = Logger_new ok st;
          (rs, st2) = Logger_calls oks st1
      in (r # rs, st2))"

text \<open>The snippet: \<open>logger1 = Logger(); logger2 = Logger(); print(logger1 is logger2)\<close>.\<close>

definition logger_demo :: "bool \<Rightarrow> bool \<Rightarrow> py_error + bool" where
  "logger_demo ok1 ok2 =
     (case Logger_new ok1 Logger_class of
        (Inl e, st1) \<Rightarrow> Inl e
      | (Inr logger1, st1) \<Rightarrow>
          (case Logger_new ok2 st1 of
             (Inl e, st2) \<Rightarrow> Inl e
           | (Inr logger2, st2) \<Rightarrow> Inr (logger1 = logger2)))"

section \<open>Decorator: the coffee shop\<close>

text \<open>
  A beverage object is an \<open>Espresso\<close> or a decorator holding the address of the beverage
  it wraps (\<open>_beverage\<close>). \<open>cost\<close> and \<open>description\<close> call the wrapped object's method;
  the depth of the calls is bounded by the fuel, and \<open>None\<close> is a call that does not
  return a value.
\<close>

datatype beverage = Espresso | MilkDecorator nat | MochaDecorator nat

definition Espresso_init :: "beverage list \<Rightarrow> nat \<times> beverage list" where
  "Espresso_init h = alloc h Espresso"

definition MilkDecorator_init :: "beverage list \<Rightarrow> nat \<Rightarrow> nat \<times> beverage list" where
  "MilkDecorator_init h b = alloc h (MilkDecorator b)"

definition MochaDecorator_init :: "beverage list \<Rightarrow> nat \<Rightarrow> nat \<times> beverage list" where
  "MochaDecorator_init h b = alloc h (MochaDecorator b)"

fun cost :: "nat \<Rightarrow> beverage list \<Rightarrow> nat \<Rightarrow> pyfloat option" where
  "cost 0 h a = None"
| "cost (Suc k) h a =
     (case lookup h a of
        None \<Rightarrow> None
      | Some Espresso \<Rightarrow> Some (float_literal (199 / 100))
      | Some (MilkDecorator b) \<Rightarrow>
          map_option (\<lambda>c. float_add c (float_literal (50 / 100))) (cost k h b)
      | Some (MochaDecorator b) \<Rightarrow>
          map_option (\<lambda>c. float_add c (float_literal (75 / 100))) (cost k h b))"

fun description :: "nat \<Rightarrow> beverage list \<Rightarrow> nat \<Rightarrow> string option" where
  "description 0 h a = None"
| "description (Suc k) h a =
     (case lookup h a of
        None \<Rightarrow> None
      | Some Espresso \<Rightarrow> Some ''Espresso''
      | Some (MilkDecorator b) \<Rightarrow> map_option (\<lambda>d. d @ '', Milk'') (description k h b)
      | Some (MochaDecorator b) \<Rightarrow> map_option (\<lambda>d. d @ '', Mocha'') (description k h b))"

text \<open>The client code: the description and the cost printed after each step.\<close>

definition coffee_shop_demo :: "nat \<Rightarrow> (string option \<times> pyfloat option) list" where
  "coffee_shop_demo k =
     (let (espresso, h1) = Espresso_init [];
          line1 = (description k h1 espresso, cost k h1 espresso);
          (espresso_with_milk, h2) = MilkDecorator_init h1 espresso;
          line2 = (description k h2 espresso_with_milk, cost k h2 espresso_with_milk);
          (espresso_with_milk_and_mocha, h3) = MochaDecorator_init h2 espresso_with_milk;
          line3 = (description k h3 espresso_with_milk_and_mocha,
                   cost k h3 espresso_with_milk_and_mocha)
      in [line1, line2, line3])"

section \<open>Composite: the file system\<close>

text \<open>
  A \<open>File\<close> has a name; a \<open>Directory\<close> has a name and the list \<open>components\<close> of the
  addresses of its children. \<open>show_details\<close> returns the lines it prints.
\<close>

datatype component = File string | Directory string "nat list"

definition File_init :: "component list \<Rightarrow> string \<Rightarrow> nat \<times> component list" where
  "File_init h n = alloc h (File n)"

definition Directory_init :: "component list \<Rightarrow> string \<Rightarrow> nat \<times> component list" where
  "Directory_init h n = alloc h (Directory n [])"

text \<open>\<open>list.remove\<close>: delete the first element equal to \<open>x\<close>, \<open>ValueError\<close> when there is none.\<close>

fun list_remove :: "'a \<Rightarrow> 'a list \<Rightarrow> py_error + 'a list" where
  "list_remove x [] = Inl ValueError"
| "list_remove x (y # ys) =
     (if y = x then Inr ys
      else case list_remove x ys of Inl e \<Rightarrow> Inl e | Inr zs \<Rightarrow> Inr (y # zs))"

text \<open>
  A method called on an object that is not a \<open>Directory\<close> raises \<open>AttributeError\<close>; the
  heap returned is the heap after the call, also when the call raises.
\<close>

definition add :: "component list \<Rightarrow> nat \<Rightarrow> nat \<Rightarrow> (py_error + unit) \<times> component list" where
  "add h self c =
     (case lookup h self of
        Some (Directory n cs) \<Rightarrow> (Inr (), h[self := Directory n (cs @ [c])])
      | _ \<Rightarrow> (Inl AttributeError, h))"

definition remove :: "component list \<Rightarrow> nat \<Rightarrow> nat \<Rightarrow> (py_error + unit) \<times> component list" where
  "remove h self c =
     (case lookup h self of
        Some (Directory n cs) \<Rightarrow>
          (case list_remove c cs of
             Inl e \<Rightarrow> (Inl e, h)
           | Inr cs' \<Rightarrow> (Inr (), h[self := Directory n cs']))
      | _ \<Rightarrow> (Inl AttributeError, h))"

text \<open>
  \<open>show_details\<close> with a bound on the depth of the calls: \<open>None\<close> is a call that does not
  return (the recursion never ends, or a child is no component).
\<close>

fun show_details :: "nat \<Rightarrow> component list \<Rightarrow> nat \<Rightarrow> string list option" where
  "show_details 0 h a = None"
| "show_details (Suc k) h a =
     (case lookup h a of
        None \<Rightarrow> None
      | Some (File n) \<Rightarrow> Some [''File: '' @ n]
      | Some (Directory n cs) \<Rightarrow>
          map_option (\<lambda>ls. (''Directory: '' @ n) # concat ls)
            (those (map (show_details k h) cs)))"

text \<open>The components below an address form a finite tree.\<close>

inductive finite_tree :: "component list \<Rightarrow> nat \<Rightarrow> bool" where
  leaf: "lookup h a = Some (File n) \<Longrightarrow> finite_tree h a"
| node: "lookup h a = Some (Directory n cs) \<Longrightarrow> (\<And>c. c \<in> set cs \<Longrightarrow> finite_tree h c)
         \<Longrightarrow> finite_tree h a"

text \<open>The snippet that builds the tree, in the order of the lecture.\<close>

definition file_system_demo :: "(nat \<times> component list) option" where
  "file_system_demo =
     (let (root_directory, h1) = Directory_init [] ''root'';
          (home_directory, h2) = Directory_init h1 ''home'';
          (user_directory, h3) = Directory_init h2 ''user'';
          (file1, h4) = File_init h3 ''file1.txt'';
          (file2, h5) = File_init h4 ''file2.txt'';
          (file3, h6) = File_init h5 ''file3.txt'';
          (r1, h7) = add h6 root_directory home_directory;
          (r2, h8) = add h7 home_directory user_directory;
          (r3, h9) = add h8 user_directory file1;
          (r4, h10) = add h9 user_directory file2;
          (r5, h11) = add h10 root_directory file3
      in if r1 = Inr () \<and> r2 = Inr () \<and> r3 = Inr () \<and> r4 = Inr () \<and> r5 = Inr ()
         then Some (root_directory, h11) else None)"

section \<open>Builder: the meal\<close>

text \<open>
  The objects of the lecture: a \<open>Product\<close> with its three parts (\<open>None\<close> until built), a
  \<open>Builder\<close> holding the address of its product, a \<open>MealBuilder\<close> holding the address
  of its builder. A method returns \<open>None\<close> when an object it reaches is not of the class
  whose attributes it uses.
\<close>

datatype meal_object =
    Product "string option" "string option" "string option"
  | Builder nat
  | MealBuilder nat

definition Product_init :: "meal_object list \<Rightarrow> nat \<times> meal_object list" where
  "Product_init h = alloc h (Product None None None)"

definition Builder_init :: "meal_object list \<Rightarrow> nat \<times> meal_object list" where
  "Builder_init h = (let (p, h1) = Product_init h in alloc h1 (Builder p))"

definition MealBuilder_init :: "meal_object list \<Rightarrow> nat \<times> meal_object list" where
  "MealBuilder_init h = (let (b, h1) = Builder_init h in alloc h1 (MealBuilder b))"

definition build_part1 :: "meal_object list \<Rightarrow> nat \<Rightarrow> string \<Rightarrow> meal_object list option" where
  "build_part1 h self v =
     (case lookup h self of
        Some (Builder p) \<Rightarrow>
          (case lookup h p of
             Some (Product p1 p2 p3) \<Rightarrow> Some (h[p := Product (Some v) p2 p3])
           | _ \<Rightarrow> None)
      | _ \<Rightarrow> None)"

definition build_part2 :: "meal_object list \<Rightarrow> nat \<Rightarrow> string \<Rightarrow> meal_object list option" where
  "build_part2 h self v =
     (case lookup h self of
        Some (Builder p) \<Rightarrow>
          (case lookup h p of
             Some (Product p1 p2 p3) \<Rightarrow> Some (h[p := Product p1 (Some v) p3])
           | _ \<Rightarrow> None)
      | _ \<Rightarrow> None)"

definition build_part3 :: "meal_object list \<Rightarrow> nat \<Rightarrow> string \<Rightarrow> meal_object list option" where
  "build_part3 h self v =
     (case lookup h self of
        Some (Builder p) \<Rightarrow>
          (case lookup h p of
             Some (Product p1 p2 p3) \<Rightarrow> Some (h[p := Product p1 p2 (Some v)])
           | _ \<Rightarrow> None)
      | _ \<Rightarrow> None)"

definition get_product :: "meal_object list \<Rightarrow> nat \<Rightarrow> nat option" where
  "get_product h self = (case lookup h self of Some (Builder p) \<Rightarrow> Some p | _ \<Rightarrow> None)"

definition prepare_veg_meal :: "meal_object list \<Rightarrow> nat \<Rightarrow> (nat \<times> meal_object list) option" where
  "prepare_veg_meal h self =
     (case lookup h self of
        Some (MealBuilder b) \<Rightarrow>
          do {
            h1 \<leftarrow> build_part1 h b ''Salad'';
            h2 \<leftarrow> build_part2 h1 b ''Vegetable Curry'';
            h3 \<leftarrow> build_part3 h2 b ''Rice'';
            p \<leftarrow> get_product h3 b;
            Some (p, h3)
          }
      | _ \<Rightarrow> None)"

definition prepare_non_veg_meal :: "meal_object list \<Rightarrow> nat \<Rightarrow> (nat \<times> meal_object list) option" where
  "prepare_non_veg_meal h self =
     (case lookup h self of
        Some (MealBuilder b) \<Rightarrow>
          do {
            h1 \<leftarrow> build_part1 h b ''Chicken Soup'';
            h2 \<leftarrow> build_part2 h1 b ''Grilled Chicken'';
            h3 \<leftarrow> build_part3 h2 b ''Chicken Tikka'';
            p \<leftarrow> get_product h3 b;
            Some (p, h3)
          }
      | _ \<Rightarrow> None)"

text \<open>The product a \<open>MealBuilder\<close> reaches: \<open>self.builder.product\<close>.\<close>

definition product_of :: "meal_object list \<Rightarrow> nat \<Rightarrow> nat option" where
  "product_of h m =
     (case lookup h m of
        Some (MealBuilder b) \<Rightarrow>
          (case lookup h b of
             Some (Builder p) \<Rightarrow>
               (case lookup h p of Some (Product p1 p2 p3) \<Rightarrow> Some p | _ \<Rightarrow> None)
           | _ \<Rightarrow> None)
      | _ \<Rightarrow> None)"

section \<open>Proxy: the video\<close>

text \<open>
  The objects are \<open>RealVideo\<close> (its \<open>filename\<close>) and \<open>VideoProxy\<close> (its \<open>filename\<close> and
  \<open>_real_video\<close>, \<open>None\<close> or the address of a \<open>RealVideo\<close>). The state is the heap and
  the lines printed so far.
\<close>

datatype video_object = RealVideo string | VideoProxy string "nat option"

record video_state =
  videos :: "video_object list"
  printed :: "string list"

definition load_video :: "video_state \<Rightarrow> nat \<Rightarrow> video_state option" where
  "load_video st self =
     (case lookup (videos st) self of
        Some (RealVideo f) \<Rightarrow> Some (st\<lparr>printed := printed st @ [''RealVideo: Loading video '' @ f]\<rparr>)
      | _ \<Rightarrow> None)"

definition RealVideo_init :: "video_state \<Rightarrow> string \<Rightarrow> (nat \<times> video_state) option" where
  "RealVideo_init st f =
     (let (a, h) = alloc (videos st) (RealVideo f)
      in map_option (\<lambda>st1. (a, st1)) (load_video (st\<lparr>videos := h\<rparr>) a))"

definition RealVideo_play :: "video_state \<Rightarrow> nat \<Rightarrow> video_state option" where
  "RealVideo_play st self =
     (case lookup (videos st) self of
        Some (RealVideo f) \<Rightarrow> Some (st\<lparr>printed := printed st @ [''RealVideo: Playing video '' @ f]\<rparr>)
      | _ \<Rightarrow> None)"

definition VideoProxy_init :: "video_state \<Rightarrow> string \<Rightarrow> nat \<times> video_state" where
  "VideoProxy_init st f =
     (let (a, h) = alloc (videos st) (VideoProxy f None) in (a, st\<lparr>videos := h\<rparr>))"

definition VideoProxy_play :: "video_state \<Rightarrow> nat \<Rightarrow> video_state option" where
  "VideoProxy_play st self =
     do {
       st1 \<leftarrow> (case lookup (videos st) self of
                 Some (VideoProxy f None) \<Rightarrow>
                   do {
                     (r, st') \<leftarrow> RealVideo_init st f;
                     Some (st'\<lparr>videos := (videos st')[self := VideoProxy f (Some r)]\<rparr>)
                   }
               | Some (VideoProxy f (Some r)) \<Rightarrow> Some st
               | _ \<Rightarrow> None);
       (case lookup (videos st1) self of
          Some (VideoProxy f (Some r)) \<Rightarrow> RealVideo_play st1 r
        | _ \<Rightarrow> None)
     }"

text \<open>\<open>n\<close> calls of \<open>play\<close> on one proxy, one after the other.\<close>

fun plays :: "nat \<Rightarrow> video_state \<Rightarrow> nat \<Rightarrow> video_state option" where
  "plays 0 st self = Some st"
| "plays (Suc n) st self =
     (case VideoProxy_play st self of None \<Rightarrow> None | Some st1 \<Rightarrow> plays n st1 self)"

section \<open>Facts about binary64 rounding\<close>

lemma bit_length_nonneg: "0 \<le> bit_length n"
  by (induction n rule: bit_length.induct) (subst bit_length.simps, simp)

lemma bit_length_rec: "0 < n \<Longrightarrow> bit_length n = 1 + bit_length (n div 2)"
  by (subst bit_length.simps) simp

lemma bit_length_pos: "0 < n \<Longrightarrow> 0 < bit_length n"
  using bit_length_nonneg [of "n div 2"] by (simp add: bit_length_rec)

lemma bit_length_bounds:
  "0 < n \<Longrightarrow> 2 ^ nat (bit_length n - 1) \<le> n \<and> n < 2 ^ nat (bit_length n)"
proof (induction n rule: bit_length.induct)
  case (1 n)
  show ?case
  proof (cases "n = 1")
    case True
    then show ?thesis by (simp add: bit_length.simps)
  next
    case False
    with 1 have pos: "0 < n div 2" by simp
    with 1 have IH: "2 ^ nat (bit_length (n div 2) - 1) \<le> n div 2"
      "n div 2 < 2 ^ nat (bit_length (n div 2))" by simp_all
    have b: "bit_length n = 1 + bit_length (n div 2)"
      using 1 by (simp add: bit_length_rec)
    have bp: "0 < bit_length (n div 2)"
      using pos by (rule bit_length_pos)
    have e1: "nat (bit_length n - 1) = Suc (nat (bit_length (n div 2) - 1))"
      using b bp by simp
    have e2: "nat (bit_length n) = Suc (nat (bit_length (n div 2)))"
      using b bp by simp
    show ?thesis
      unfolding e1 e2 power_Suc using IH by linarith
  qed
qed

lemma ilog2_lower:
  assumes "0 < x"
  shows "2 powi (ilog2 x) \<le> x"
proof (cases "1 \<le> x")
  case True
  define n where "n = \<lfloor>x\<rfloor>"
  have n: "1 \<le> n" using True by (simp add: n_def le_floor_iff)
  have bp: "0 < bit_length n" using n by (intro bit_length_pos) simp
  have "(2::rat) powi (bit_length n - 1) = of_int (2 ^ nat (bit_length n - 1))"
    using bp by (simp add: power_int_def)
  also have "\<dots> \<le> of_int n"
    using bit_length_bounds [of n] n by (intro of_int_le_iff [THEN iffD2]) simp
  also have "\<dots> \<le> x" by (simp add: n_def)
  finally show ?thesis using True by (simp add: ilog2_def n_def)
next
  case False
  define m where "m = \<lceil>1 / x\<rceil> - 1"
  have y: "1 < 1 / x" using False assms by simp
  have m: "1 \<le> m" using y by (simp add: m_def less_ceiling_iff)
  have bp: "0 < bit_length m" using m by (intro bit_length_pos) simp
  have "1 / x \<le> of_int (m + 1)" by (simp add: m_def)
  also have "\<dots> \<le> of_int (2 ^ nat (bit_length m))"
    using bit_length_bounds [of m] m by (intro of_int_le_iff [THEN iffD2]) simp
  also have "\<dots> = (2::rat) powi (bit_length m)"
    using bp by (simp add: power_int_def)
  finally have "1 / x \<le> 2 powi (bit_length m)" .
  then have "1 / 2 powi (bit_length m) \<le> x"
    using assms by (simp add: field_simps)
  then show ?thesis using False by (simp add: ilog2_def m_def power_int_minus_divide)
qed

lemma ilog2_upper:
  assumes "0 < x"
  shows "x < 2 powi (ilog2 x + 1)"
proof (cases "1 \<le> x")
  case True
  define n where "n = \<lfloor>x\<rfloor>"
  have n: "1 \<le> n" using True by (simp add: n_def le_floor_iff)
  have bp: "0 < bit_length n" using n by (intro bit_length_pos) simp
  have "x < of_int (n + 1)" using floor_correct [of x] by (simp add: n_def)
  also have "\<dots> \<le> of_int (2 ^ nat (bit_length n))"
    using bit_length_bounds [of n] n by (intro of_int_le_iff [THEN iffD2]) simp
  also have "\<dots> = (2::rat) powi (bit_length n)"
    using bp by (simp add: power_int_def)
  finally show ?thesis using True by (simp add: ilog2_def n_def)
next
  case False
  define m where "m = \<lceil>1 / x\<rceil> - 1"
  have y: "1 < 1 / x" using False assms by simp
  have m: "1 \<le> m" using y by (simp add: m_def less_ceiling_iff)
  have bp: "0 < bit_length m" using m by (intro bit_length_pos) simp
  have "(2::rat) powi (bit_length m - 1) = of_int (2 ^ nat (bit_length m - 1))"
    using bp by (simp add: power_int_def)
  also have "\<dots> \<le> of_int m"
    using bit_length_bounds [of m] m by (intro of_int_le_iff [THEN iffD2]) simp
  also have "\<dots> < 1 / x" using ceiling_correct [of "1 / x"] by (simp add: m_def)
  finally have "2 powi (bit_length m - 1) < 1 / x" .
  then have "x < 1 / 2 powi (bit_length m - 1)"
    using assms by (simp add: field_simps)
  also have "\<dots> = 2 powi (- bit_length m + 1)"
    by (simp add: power_int_minus_divide [symmetric])
  finally show ?thesis using False by (simp add: ilog2_def m_def)
qed

lemma ilog2_eqI:
  assumes "2 powi e \<le> x" and "x < 2 powi (e + 1)"
  shows "ilog2 x = e"
proof -
  have pos: "0 < x"
    by (rule less_le_trans [OF _ assms(1)]) simp
  have "(2::rat) powi (ilog2 x) < 2 powi (e + 1)"
    using ilog2_lower [OF pos] assms(2) by simp
  then have a: "ilog2 x < e + 1"
    using power_int_increasing [of "e + 1" "ilog2 x" "2::rat"] by (cases "ilog2 x < e + 1") auto
  have "(2::rat) powi e < 2 powi (ilog2 x + 1)"
    using ilog2_upper [OF pos] assms(1) by simp
  then have b: "e < ilog2 x + 1"
    using power_int_increasing [of "ilog2 x + 1" e "2::rat"] by (cases "e < ilog2 x + 1") auto
  from a b show ?thesis by simp
qed

lemma round_half_even_near: "\<bar>x - of_int n\<bar> < 1 / 2 \<Longrightarrow> round_half_even x = n"
proof (cases "of_int n \<le> x")
  case True
  assume a: "\<bar>x - of_int n\<bar> < 1 / 2"
  have "\<lfloor>x\<rfloor> = n" using True a by (intro floor_unique) auto
  then show ?thesis using a True by (simp add: round_half_even_def Let_def)
next
  case False
  assume a: "\<bar>x - of_int n\<bar> < 1 / 2"
  have "\<lfloor>x\<rfloor> = n - 1" using False a by (intro floor_unique) auto
  then show ?thesis using a False by (simp add: round_half_even_def Let_def)
qed

lemma round_half_even_tie:
  "x = of_int n + 1 / 2 \<Longrightarrow> round_half_even x = (if even n then n else n + 1)"
proof -
  assume a: "x = of_int n + 1 / 2"
  have "\<lfloor>x\<rfloor> = n" using a by (intro floor_unique) auto
  then show ?thesis using a by (simp add: round_half_even_def Let_def)
qed

text \<open>
  The value of \<open>round_double\<close> in the normal range, from the exponent \<open>e\<close> and the
  rounded significand \<open>n\<close>.
\<close>

lemma round_double_eqI:
  assumes "2 powi e \<le> \<bar>x\<bar>" and "\<bar>x\<bar> < 2 powi (e + 1)" and "- 1022 \<le> e"
    and "round_half_even (x / 2 powi (e - 52)) = n"
    and "y = of_int n * 2 powi (e - 52)"
    and "y < 2 powi 1024" and "- (2 powi 1024) < y" and "y \<noteq> 0"
  shows "round_double x = Fin y"
proof -
  have "0 < \<bar>x\<bar>"
    by (rule less_le_trans [OF _ assms(1)]) simp
  then have nz: "x \<noteq> 0" by simp
  have e: "max (ilog2 \<bar>x\<bar>) (- 1022) = e"
    using ilog2_eqI [OF assms(1,2)] assms(3) by simp
  show ?thesis
    unfolding round_double_def Let_def e assms(4) assms(5) [symmetric]
    using nz assms(6,7,8) by simp
qed

lemma literal_0_1: "float_literal (1 / 10) = Fin (3602879701896397 / 36028797018963968)"
  unfolding float_literal_def
  by (rule round_double_eqI [where e = "- 4" and n = 7205759403792794])
     (simp_all add: round_half_even_near)

lemma literal_0_05: "float_literal (1 / 20) = Fin (3602879701896397 / 72057594037927936)"
  unfolding float_literal_def
  by (rule round_double_eqI [where e = "- 5" and n = 7205759403792794])
     (simp_all add: round_half_even_near)

lemma int_to_float_60000: "int_to_float 60000 = Inr (Fin 60000)"
proof -
  have "round_double (of_int 60000) = Fin 60000"
    by (rule round_double_eqI [where e = 15 and n = 8246337208320000])
       (simp_all add: round_half_even_near)
  then show ?thesis by (simp add: int_to_float_def is_inf_def)
qed

lemma int_to_float_40000: "int_to_float 40000 = Inr (Fin 40000)"
proof -
  have "round_double (of_int 40000) = Fin 40000"
    by (rule round_double_eqI [where e = 15 and n = 5497558138880000])
       (simp_all add: round_half_even_near)
  then show ?thesis by (simp add: int_to_float_def is_inf_def)
qed

lemma bonus_60000:
  "py_mul (PInt 60000) (PFloat (float_literal (1 / 10))) = Inr (PFloat (Fin 6000))"
proof -
  have "round_double (60000 * (3602879701896397 / 36028797018963968)) = Fin 6000"
    by (rule round_double_eqI [where e = 12 and n = 6597069766656000])
       (simp_all add: round_half_even_near)
  then show ?thesis
    by (simp add: literal_0_1 int_to_float_60000 float_mul_def is_inf_def is_zero_def)
qed

lemma bonus_40000:
  "py_mul (PInt 40000) (PFloat (float_literal (1 / 20))) = Inr (PFloat (Fin 2000))"
proof -
  have "round_double (40000 * (3602879701896397 / 72057594037927936)) = Fin 2000"
    by (rule round_double_eqI [where e = 10 and n = 8796093022208000])
       (simp_all add: round_half_even_near)
  then show ?thesis
    by (simp add: literal_0_05 int_to_float_40000 float_mul_def is_inf_def is_zero_def)
qed

lemma literal_1_99: "float_literal (199 / 100) = Fin (8962163258467287 / 4503599627370496)"
  unfolding float_literal_def
  by (rule round_double_eqI [where e = 0 and n = 8962163258467287])
     (simp_all add: round_half_even_near)

lemma literal_0_5: "float_literal (1 / 2) = Fin (1 / 2)"
  unfolding float_literal_def
  by (rule round_double_eqI [where e = "- 1" and n = 4503599627370496])
     (simp_all add: round_half_even_near)

lemma literal_0_75: "float_literal (3 / 4) = Fin (3 / 4)"
  unfolding float_literal_def
  by (rule round_double_eqI [where e = "- 1" and n = 6755399441055744])
     (simp_all add: round_half_even_near)

lemma literal_2_49: "float_literal (249 / 100) = Fin (1401745384019067 / 562949953421312)"
  unfolding float_literal_def
  by (rule round_double_eqI [where e = 1 and n = 5606981536076268])
     (simp_all add: round_half_even_near)

lemma literal_3_24: "float_literal (324 / 100) = Fin (1823957849085051 / 562949953421312)"
  unfolding float_literal_def
  by (rule round_double_eqI [where e = 1 and n = 7295831396340204])
     (simp_all add: round_half_even_near)

lemma add_1_99_0_5:
  "float_add (Fin (8962163258467287 / 4503599627370496)) (Fin (1 / 2))
     = Fin (1401745384019067 / 562949953421312)"
proof -
  have "round_half_even (11213963072152535 / 2)
      = (if even (5606981536076267::int) then 5606981536076267 else 5606981536076267 + 1)"
    by (rule round_half_even_tie) simp
  then have tie: "round_half_even (11213963072152535 / 2) = 5606981536076268"
    by simp
  have "round_double (8962163258467287 / 4503599627370496 + 1 / 2)
      = Fin (1401745384019067 / 562949953421312)"
    by (rule round_double_eqI [where e = 1 and n = 5606981536076268])
       (simp_all add: tie)
  then show ?thesis
    by (simp add: float_add_def is_inf_def is_zero_def)
qed

lemma add_2_49_0_75:
  "float_add (Fin (1401745384019067 / 562949953421312)) (Fin (3 / 4))
     = Fin (1823957849085051 / 562949953421312)"
proof -
  have "round_double (1401745384019067 / 562949953421312 + 3 / 4)
      = Fin (1823957849085051 / 562949953421312)"
    by (rule round_double_eqI [where e = 1 and n = 7295831396340204])
       (simp_all add: round_half_even_near)
  then show ?thesis
    by (simp add: float_add_def is_inf_def is_zero_def)
qed

section \<open>Factory Method: results\<close>

text \<open>
  C4. For an employee of each subclass with any salary \<open>s\<close>, \<open>calculate_bonus\<close> returns
  Python's \<open>s * 0.1\<close> for a \<open>FullTimeEmployee\<close>, \<open>s * 0.05\<close> for a \<open>PartTimeEmployee\<close> and
  the integer \<open>0\<close> for a \<open>Contractor\<close>; the employee handed back by any call is the
  employee it was called on, name and salary included.
\<close>

theorem calculate_bonus_by_class:
  "fst (calculate_bonus (Employee_init FullTimeEmployee n s)) = py_mul s (PFloat (float_literal (1 / 10)))
   \<and> fst (calculate_bonus (Employee_init PartTimeEmployee n s)) = py_mul s (PFloat (float_literal (5 / 100)))
   \<and> fst (calculate_bonus (Employee_init Contractor n s)) = Inr (PInt 0)
   \<and> snd (calculate_bonus e) = e
   \<and> employee.name (snd (calculate_bonus e)) = employee.name e
   \<and> salary (snd (calculate_bonus e)) = salary e"
  by (cases "cls e")
     (simp_all add: calculate_bonus_def Employee_init_def FullTimeEmployee_calculate_bonus_def
        PartTimeEmployee_calculate_bonus_def Contractor_calculate_bonus_def)

theorem calculate_bonus_by_class_witness:
  "fst (calculate_bonus (Employee_init FullTimeEmployee ''John'' (PInt 60000))) = Inr (PFloat (Fin 6000))
   \<and> fst (calculate_bonus (Employee_init PartTimeEmployee ''John'' (PInt 60000)))
       = py_mul (PInt 60000) (PFloat (float_literal (5 / 100)))
   \<and> fst (calculate_bonus (Employee_init Contractor ''John'' (PInt 60000))) = Inr (PInt 0)
   \<and> snd (calculate_bonus (Employee_init Contractor ''Bob'' (PInt 80000)))
       = Employee_init Contractor ''Bob'' (PInt 80000)"
  using calculate_bonus_by_class [of "''John''" "PInt 60000" "Employee_init Contractor ''Bob'' (PInt 80000)"]
  by (simp add: bonus_60000 del: py_mul.simps)

text \<open>
  C3. \<open>HRManager.make_employee\<close> always returns a \<open>FullTimeEmployee\<close>;
  \<open>Recruiter.make_employee\<close> returns a \<open>PartTimeEmployee\<close> exactly when
  \<open>salary < 50000\<close> and a \<open>Contractor\<close> otherwise; both store the name and the salary
  given. In the hiring snippet John gets the bonus \<open>6000.0\<close> as a \<open>FullTimeEmployee\<close>,
  Alice \<open>2000.0\<close> as a \<open>PartTimeEmployee\<close> and Bob the integer \<open>0\<close> as a \<open>Contractor\<close>.
\<close>

theorem make_employee_dispatch:
  "cls (HRManager_make_employee n s) = FullTimeEmployee
   \<and> (cls (Recruiter_make_employee n s) = PartTimeEmployee \<longleftrightarrow> py_lt s (PInt 50000))
   \<and> (cls (Recruiter_make_employee n s) = Contractor \<longleftrightarrow> \<not> py_lt s (PInt 50000))
   \<and> employee.name (HRManager_make_employee n s) = n \<and> salary (HRManager_make_employee n s) = s
   \<and> employee.name (Recruiter_make_employee n s) = n \<and> salary (Recruiter_make_employee n s) = s
   \<and> fst (calculate_bonus (HRManager_make_employee ''John'' (PInt 60000))) = Inr (PFloat (Fin 6000))
   \<and> type_name (HRManager_make_employee ''John'' (PInt 60000)) = ''FullTimeEmployee''
   \<and> fst (calculate_bonus (Recruiter_make_employee ''Alice'' (PInt 40000))) = Inr (PFloat (Fin 2000))
   \<and> type_name (Recruiter_make_employee ''Alice'' (PInt 40000)) = ''PartTimeEmployee''
   \<and> fst (calculate_bonus (Recruiter_make_employee ''Bob'' (PInt 80000))) = Inr (PInt 0)
   \<and> type_name (Recruiter_make_employee ''Bob'' (PInt 80000)) = ''Contractor''"
  by (simp add: HRManager_make_employee_def Recruiter_make_employee_def Employee_init_def
        calculate_bonus_def type_name_def FullTimeEmployee_calculate_bonus_def
        PartTimeEmployee_calculate_bonus_def Contractor_calculate_bonus_def
        bonus_60000 bonus_40000 del: py_mul.simps)

theorem make_employee_dispatch_witness:
  "cls (Recruiter_make_employee ''Alice'' (PInt 40000)) = PartTimeEmployee
   \<and> cls (Recruiter_make_employee ''Bob'' (PInt 50000)) = Contractor
   \<and> cls (Recruiter_make_employee ''Eve'' (PFloat NaN)) = Contractor
   \<and> cls (Recruiter_make_employee ''Dan'' (PFloat (Fin (99999 / 2)))) = PartTimeEmployee"
  using make_employee_dispatch [of "''Alice''" "PInt 40000"]
    make_employee_dispatch [of "''Bob''" "PInt 50000"]
    make_employee_dispatch [of "''Eve''" "PFloat NaN"]
    make_employee_dispatch [of "''Dan''" "PFloat (Fin (99999 / 2))"]
  by (simp add: float_lt_def)

section \<open>Prototype: results\<close>

text \<open>
  C1. A \<open>ProductPrototype\<close> constructed with name \<open>n\<close> and price \<open>r\<close> holds these two
  values; for every product \<open>p\<close> of the heap, whatever its attributes \<open>x\<close> are when it is
  cloned, \<open>p.clone()\<close> returns an object whose name and price are those of \<open>x\<close>, and
  after the call \<open>p\<close> and every other object of the heap are as before.
\<close>

theorem clone_copies_attributes:
  "(ProductPrototype_init h0 n r = (p, h) \<longrightarrow>
      lookup h p = Some \<lparr>name = n, price = r\<rparr>)
   \<and> (lookup h p = Some x \<longrightarrow>
        (\<exists>c h' y. clone h p = Some (c, h')
           \<and> lookup h' c = Some y
           \<and> ProductPrototype.name y = ProductPrototype.name x \<and> price y = price x
           \<and> lookup h' p = Some x
           \<and> (\<forall>a. a < length h \<longrightarrow> lookup h' a = lookup h a)))"
  by (auto simp: ProductPrototype_init_def clone_def deepcopy_def deepcopy_atom_def alloc_def
      lookup_def nth_append split: if_splits)

theorem clone_copies_attributes_witness:
  "(\<exists>c h' y. clone [\<lparr>name = ''Smartphone'', price = 500::int\<rparr>] 0 = Some (c, h')
       \<and> lookup h' c = Some y
       \<and> ProductPrototype.name y = ''Smartphone'' \<and> price y = 500
       \<and> lookup h' 0 = Some \<lparr>name = ''Smartphone'', price = 500\<rparr>)
   \<and> ProductPrototype_init [] ''Smartphone'' (500::int) = (0, [\<lparr>name = ''Smartphone'', price = 500\<rparr>])
   \<and> lookup [\<lparr>name = ''Smartphone'', price = 500::int\<rparr>] 0 = Some \<lparr>name = ''Smartphone'', price = 500\<rparr>"
  using clone_copies_attributes [of "[]" "''Smartphone''" "500::int" 0
      "[\<lparr>name = ''Smartphone'', price = 500\<rparr>]" "\<lparr>name = ''Smartphone'', price = 500\<rparr>"]
  by (auto simp: ProductPrototype_init_def alloc_def lookup_def)

text \<open>
  C7. For every product \<open>p\<close>, \<open>p.clone()\<close> returns an object at another address than
  \<open>p\<close>; assigning a new name or a new price to the clone leaves \<open>p\<close> as it was, and
  assigning a new name or a new price to \<open>p\<close> after the cloning leaves the clone as it
  was.
\<close>

theorem clone_is_independent:
  "lookup h p = Some x \<Longrightarrow>
     (\<exists>c h1 y. clone h p = Some (c, h1) \<and> c \<noteq> p \<and> lookup h1 c = Some y
        \<and> (\<exists>h2. set_name h1 c v = Some h2 \<and> lookup h2 p = Some x)
        \<and> (\<exists>h2. set_price h1 c w = Some h2 \<and> lookup h2 p = Some x)
        \<and> (\<exists>h2. set_name h1 p v = Some h2 \<and> lookup h2 c = Some y)
        \<and> (\<exists>h2. set_price h1 p w = Some h2 \<and> lookup h2 c = Some y))"
  by (auto simp: clone_def deepcopy_def deepcopy_atom_def alloc_def set_name_def set_price_def
      lookup_def nth_append split: if_splits)

theorem clone_is_independent_witness:
  "\<exists>c h1 y. clone [\<lparr>name = ''Smartphone'', price = 500::int\<rparr>] 0 = Some (c, h1) \<and> c \<noteq> 0
      \<and> lookup h1 c = Some y
      \<and> (\<exists>h2. set_name h1 c ''Tablet'' = Some h2 \<and> lookup h2 0 = Some \<lparr>name = ''Smartphone'', price = 500\<rparr>)
      \<and> (\<exists>h2. set_price h1 c 450 = Some h2 \<and> lookup h2 0 = Some \<lparr>name = ''Smartphone'', price = 500\<rparr>)
      \<and> (\<exists>h2. set_name h1 0 ''Tablet'' = Some h2 \<and> lookup h2 c = Some y)
      \<and> (\<exists>h2. set_price h1 0 450 = Some h2 \<and> lookup h2 c = Some y)"
proof -
  have "lookup [\<lparr>name = ''Smartphone'', price = 500::int\<rparr>] 0 = Some \<lparr>name = ''Smartphone'', price = 500\<rparr>"
    by (simp add: lookup_def)
  then show ?thesis
    by (rule clone_is_independent)
qed

section \<open>Singleton: results\<close>

lemma Logger_new_inv:
  "Logger_inv st \<Longrightarrow> Logger_new ok st = (r, st1) \<Longrightarrow>
     Logger_inv st1 \<and> Logger_instance st1 = Some 0 \<and> (r = Inr 0 \<or> r = Inl OSError)"
  by (auto simp: Logger_inv_def Logger_new_def alloc_def Let_def split: option.splits if_splits)

lemma Logger_calls_inv:
  "Logger_inv st \<Longrightarrow> Logger_calls oks st = (rs, st1) \<Longrightarrow>
     Logger_inv st1 \<and> (\<forall>r \<in> set rs. r = Inr 0 \<or> r = Inl OSError)
     \<and> (Logger_instance st = Some 0 \<or> rs \<noteq> [] \<longrightarrow> Logger_instance st1 = Some 0)"
proof (induction oks arbitrary: st rs st1)
  case Nil
  then show ?case by simp
next
  case (Cons ok oks)
  obtain r sta where new: "Logger_new ok st = (r, sta)" by (cases "Logger_new ok st")
  obtain rs' stb where rest: "Logger_calls oks sta = (rs', stb)" by (cases "Logger_calls oks sta")
  from Cons.prems(2) new rest have eq: "rs = r # rs'" "st1 = stb" by simp_all
  from Logger_new_inv [OF Cons.prems(1) new]
  have a: "Logger_inv sta" "Logger_instance sta = Some 0" "r = Inr 0 \<or> r = Inl OSError"
    by simp_all
  from Cons.IH [OF a(1) rest] a(2,3) eq show ?case by auto
qed

lemma Logger_inv_class: "Logger_inv Logger_class"
  by (simp add: Logger_inv_def Logger_class_def)

text \<open>
  C2. Start from the class as defined (\<open>_instance\<close> is \<open>None\<close>, no \<open>Logger\<close> exists) and
  evaluate \<open>Logger()\<close> any number of times, whatever \<open>open\<close> answers each time. Then at
  most one \<open>Logger\<close> object exists, any two evaluations that return a value return the
  same object, which is the one \<open>_instance\<close> holds, and the snippet prints \<open>True\<close>: it
  does when \<open>open\<close> succeeds, and it prints nothing else in any case.
\<close>

theorem Logger_is_singleton:
  "Logger_calls oks Logger_class = (rs, st) \<Longrightarrow>
     length (loggers st) \<le> 1
     \<and> (\<forall>a b. Inr a \<in> set rs \<and> Inr b \<in> set rs \<longrightarrow> a = b)
     \<and> (\<forall>a. Inr a \<in> set rs \<longrightarrow> Logger_instance st = Some a)
     \<and> logger_demo True True = Inr True
     \<and> (\<forall>ok1 ok2 r. logger_demo ok1 ok2 = Inr r \<longrightarrow> r)"
proof -
  assume run: "Logger_calls oks Logger_class = (rs, st)"
  from Logger_calls_inv [OF Logger_inv_class run]
  have inv: "Logger_inv st" and res: "\<forall>r \<in> set rs. r = Inr 0 \<or> r = Inl OSError"
    and inst: "rs \<noteq> [] \<longrightarrow> Logger_instance st = Some 0" by simp_all
  have len: "length (loggers st) \<le> 1" using inv by (auto simp: Logger_inv_def)
  have zero: "a = 0" if "Inr a \<in> set rs" for a
    using res that by fastforce
  have same: "\<forall>a b. Inr a \<in> set rs \<and> Inr b \<in> set rs \<longrightarrow> a = b"
    using zero by blast
  have cur: "\<forall>a. Inr a \<in> set rs \<longrightarrow> Logger_instance st = Some a"
    using zero inst by fastforce
  have demo: "logger_demo True True = Inr True"
    by (simp add: logger_demo_def Logger_new_def Logger_class_def alloc_def)
  have demo_any: "\<forall>ok1 ok2 r. logger_demo ok1 ok2 = Inr r \<longrightarrow> r"
    by (auto simp: logger_demo_def Logger_new_def Logger_class_def alloc_def Let_def
        split: if_splits)
  from len same cur demo demo_any show ?thesis by blast
qed

theorem Logger_is_singleton_witness:
  "Logger_calls [False, True, True] Logger_class
     = ([Inl OSError, Inr 0, Inr 0], \<lparr>Logger_instance = Some 0, loggers = [\<lparr>log_file = None\<rparr>]\<rparr>)
   \<and> Logger_calls [True, False] Logger_class
     = ([Inr 0, Inr 0],
        \<lparr>Logger_instance = Some 0, loggers = [\<lparr>log_file = Some (''application.log'', ''a'')\<rparr>]\<rparr>)
   \<and> length (loggers \<lparr>Logger_instance = Some 0, loggers = [\<lparr>log_file = None\<rparr>]\<rparr>) \<le> 1
   \<and> logger_demo True True = Inr True"
proof -
  have run: "Logger_calls [False, True, True] Logger_class
     = ([Inl OSError, Inr 0, Inr 0], \<lparr>Logger_instance = Some 0, loggers = [\<lparr>log_file = None\<rparr>]\<rparr>)"
    by (simp add: Logger_new_def Logger_class_def alloc_def)
  have run2: "Logger_calls [True, False] Logger_class
     = ([Inr 0, Inr 0],
        \<lparr>Logger_instance = Some 0, loggers = [\<lparr>log_file = Some (''application.log'', ''a'')\<rparr>]\<rparr>)"
    by (simp add: Logger_new_def Logger_class_def alloc_def)
  from Logger_is_singleton [OF run] run run2 show ?thesis by simp
qed

section \<open>Decorator: results\<close>

lemma cost_alloc: "cost k h a = Some c \<Longrightarrow> cost k (h @ xs) a = Some c"
proof (induction k arbitrary: a c)
  case 0
  then show ?case by simp
next
  case (Suc k)
  then show ?case
    by (auto simp: lookup_def nth_append split: if_splits beverage.splits)
qed

lemma description_alloc: "description k h a = Some d \<Longrightarrow> description k (h @ xs) a = Some d"
proof (induction k arbitrary: a d)
  case 0
  then show ?case by simp
next
  case (Suc k)
  then show ?case
    by (auto simp: lookup_def nth_append split: if_splits beverage.splits)
qed


text \<open>
  C5. Let \<open>b\<close> be a beverage whose \<open>cost()\<close> returns \<open>c\<close> and whose \<open>description()\<close>
  returns \<open>d\<close>. Then \<open>MilkDecorator(b).cost()\<close> returns \<open>c + 0.50\<close> and its
  \<open>description()\<close> returns \<open>d\<close> followed by \<open>", Milk"\<close>; \<open>MochaDecorator(b)\<close> gives
  \<open>c + 0.75\<close> and \<open>d\<close> followed by \<open>", Mocha"\<close>; after the decoration \<open>b\<close> and every
  other object are unchanged, and \<open>b\<close> still returns \<open>c\<close> and \<open>d\<close>. The snippet obtains
  \<open>1.99\<close>, \<open>1.99 + 0.50\<close> and \<open>1.99 + 0.50 + 0.75\<close> in binary64, which are the floats
  \<open>2.49\<close> and \<open>3.24\<close>.
\<close>

theorem decorators_add_on:
  "cost k h b = Some c \<Longrightarrow> description j h b = Some d \<Longrightarrow>
     (\<exists>m h'. MilkDecorator_init h b = (m, h')
        \<and> cost (Suc k) h' m = Some (float_add c (float_literal (50 / 100)))
        \<and> description (Suc j) h' m = Some (d @ '', Milk'')
        \<and> cost k h' b = Some c \<and> description j h' b = Some d
        \<and> (\<forall>a. a < length h \<longrightarrow> lookup h' a = lookup h a))
     \<and> (\<exists>m h'. MochaDecorator_init h b = (m, h')
        \<and> cost (Suc k) h' m = Some (float_add c (float_literal (75 / 100)))
        \<and> description (Suc j) h' m = Some (d @ '', Mocha'')
        \<and> cost k h' b = Some c \<and> description j h' b = Some d
        \<and> (\<forall>a. a < length h \<longrightarrow> lookup h' a = lookup h a))
     \<and> coffee_shop_demo 3 =
         [(Some ''Espresso'', Some (float_literal (199 / 100))),
          (Some ''Espresso, Milk'',
           Some (float_add (float_literal (199 / 100)) (float_literal (50 / 100)))),
          (Some ''Espresso, Milk, Mocha'',
           Some (float_add (float_add (float_literal (199 / 100)) (float_literal (50 / 100)))
                   (float_literal (75 / 100))))]
     \<and> float_add (float_literal (199 / 100)) (float_literal (50 / 100)) = float_literal (249 / 100)
     \<and> float_add (float_add (float_literal (199 / 100)) (float_literal (50 / 100)))
          (float_literal (75 / 100)) = float_literal (324 / 100)"
proof -
  assume c: "cost k h b = Some c" and d: "description j h b = Some d"
  have milk: "\<exists>m h'. MilkDecorator_init h b = (m, h')
        \<and> cost (Suc k) h' m = Some (float_add c (float_literal (50 / 100)))
        \<and> description (Suc j) h' m = Some (d @ '', Milk'')
        \<and> cost k h' b = Some c \<and> description j h' b = Some d
        \<and> (\<forall>a. a < length h \<longrightarrow> lookup h' a = lookup h a)"
    using cost_alloc [OF c, of "[MilkDecorator b]"] description_alloc [OF d, of "[MilkDecorator b]"]
    by (simp add: MilkDecorator_init_def alloc_def lookup_def nth_append)
  have mocha: "\<exists>m h'. MochaDecorator_init h b = (m, h')
        \<and> cost (Suc k) h' m = Some (float_add c (float_literal (75 / 100)))
        \<and> description (Suc j) h' m = Some (d @ '', Mocha'')
        \<and> cost k h' b = Some c \<and> description j h' b = Some d
        \<and> (\<forall>a. a < length h \<longrightarrow> lookup h' a = lookup h a)"
    using cost_alloc [OF c, of "[MochaDecorator b]"] description_alloc [OF d, of "[MochaDecorator b]"]
    by (simp add: MochaDecorator_init_def alloc_def lookup_def nth_append)
  have demo: "coffee_shop_demo 3 =
         [(Some ''Espresso'', Some (float_literal (199 / 100))),
          (Some ''Espresso, Milk'',
           Some (float_add (float_literal (199 / 100)) (float_literal (50 / 100)))),
          (Some ''Espresso, Milk, Mocha'',
           Some (float_add (float_add (float_literal (199 / 100)) (float_literal (50 / 100)))
                   (float_literal (75 / 100))))]"
    by (simp add: coffee_shop_demo_def Espresso_init_def MilkDecorator_init_def
        MochaDecorator_init_def alloc_def lookup_def numeral_3_eq_3)
  have s1: "float_add (float_literal (199 / 100)) (float_literal (50 / 100)) = float_literal (249 / 100)"
    by (simp add: literal_1_99 literal_0_5 literal_2_49 add_1_99_0_5)
  have s2: "float_add (float_add (float_literal (199 / 100)) (float_literal (50 / 100)))
          (float_literal (75 / 100)) = float_literal (324 / 100)"
    using literal_3_24
    by (simp add: literal_1_99 literal_0_5 literal_0_75 add_1_99_0_5 add_2_49_0_75)
  from milk mocha demo s1 s2 show ?thesis by blast
qed

theorem decorators_add_on_witness:
  "cost 1 [Espresso] 0 = Some (float_literal (199 / 100))
   \<and> description 1 [Espresso] 0 = Some ''Espresso''
   \<and> (\<exists>m h'. MilkDecorator_init [Espresso] 0 = (m, h')
        \<and> cost (Suc 1) h' m = Some (float_add (float_literal (199 / 100)) (float_literal (50 / 100)))
        \<and> description (Suc 1) h' m = Some (''Espresso'' @ '', Milk'')
        \<and> cost 1 h' 0 = Some (float_literal (199 / 100))
        \<and> description 1 h' 0 = Some ''Espresso'')
   \<and> (\<exists>m h'. MochaDecorator_init [Espresso] 0 = (m, h')
        \<and> cost (Suc 1) h' m = Some (float_add (float_literal (199 / 100)) (float_literal (75 / 100)))
        \<and> description (Suc 1) h' m = Some (''Espresso'' @ '', Mocha'')
        \<and> cost 1 h' 0 = Some (float_literal (199 / 100))
        \<and> description 1 h' 0 = Some ''Espresso'')"
proof -
  have c: "cost 1 [Espresso] 0 = Some (float_literal (199 / 100))"
    by (simp add: lookup_def)
  have d: "description 1 [Espresso] 0 = Some ''Espresso''"
    by (simp add: lookup_def)
  from decorators_add_on [OF c d] c d show ?thesis
    by blast
qed

section \<open>Composite: results\<close>

lemma those_map_Some:
  "(\<And>x. x \<in> set xs \<Longrightarrow> f x = Some (g x)) \<Longrightarrow> those (map f xs) = Some (map g xs)"
  by (induction xs) auto

lemma show_details_enough_fuel:
  "finite_tree h a \<Longrightarrow> \<exists>k ls. \<forall>k' \<ge> k. show_details k' h a = Some ls"
proof (induction rule: finite_tree.induct)
  case (leaf h a n)
  have "show_details k' h a = Some [''File: '' @ n]" if "1 \<le> k'" for k'
    using that leaf by (cases k') simp_all
  then show ?case by blast
next
  case (node h a n cs)
  from node.IH have "\<forall>c \<in> set cs. \<exists>k ls. \<forall>k' \<ge> k. show_details k' h c = Some ls"
    by blast
  then obtain fk fl where f: "\<forall>c \<in> set cs. \<forall>k' \<ge> fk c. show_details k' h c = Some (fl c)"
    by metis
  define K where "K = Suc (sum_list (map fk cs))"
  have bound: "fk c \<le> sum_list (map fk cs)" if "c \<in> set cs" for c
    using that by (simp add: member_le_sum_list)
  have "show_details k' h a = Some ((''Directory: '' @ n) # concat (map fl cs))" if "K \<le> k'" for k'
  proof -
    from that obtain j where k': "k' = Suc j" and j: "sum_list (map fk cs) \<le> j"
      by (cases k') (auto simp: K_def)
    have "\<And>c. c \<in> set cs \<Longrightarrow> show_details j h c = Some (fl c)"
      using f bound j by (meson order_trans)
    then have "those (map (show_details j h) cs) = Some (map fl cs)"
      by (rule those_map_Some)
    then show ?thesis using node.hyps k' by simp
  qed
  then show ?case by blast
qed


lemma file_system_demo_heap:
  "file_system_demo =
     Some (0, [Directory ''root'' [1, 5], Directory ''home'' [2], Directory ''user'' [3, 4],
               File ''file1.txt'', File ''file2.txt'', File ''file3.txt''])"
  by (simp add: file_system_demo_def Directory_init_def File_init_def alloc_def add_def lookup_def)

lemma file_system_demo_tree:
  "finite_tree [Directory ''root'' [1, 5], Directory ''home'' [2], Directory ''user'' [3, 4],
               File ''file1.txt'', File ''file2.txt'', File ''file3.txt''] 0"
    (is "finite_tree ?H 0")
proof -
  have f3: "finite_tree ?H 3" by (rule finite_tree.leaf [where n = "''file1.txt''"]) (simp add: lookup_def)
  have f4: "finite_tree ?H 4" by (rule finite_tree.leaf [where n = "''file2.txt''"]) (simp add: lookup_def)
  have f5: "finite_tree ?H 5" by (rule finite_tree.leaf [where n = "''file3.txt''"]) (simp add: lookup_def)
  have f2: "finite_tree ?H 2"
    by (rule finite_tree.node [where n = "''user''" and cs = "[3, 4]"]) (use f3 f4 in \<open>auto simp: lookup_def\<close>)
  have f1: "finite_tree ?H 1"
    by (rule finite_tree.node [where n = "''home''" and cs = "[2]"]) (use f2 in \<open>auto simp: lookup_def\<close>)
  show ?thesis
    by (rule finite_tree.node [where n = "''root''" and cs = "[1, 5]"]) (use f1 f5 in \<open>auto simp: lookup_def\<close>)
qed

lemma file_system_demo_output:
  "show_details 4 [Directory ''root'' [1, 5], Directory ''home'' [2], Directory ''user'' [3, 4],
               File ''file1.txt'', File ''file2.txt'', File ''file3.txt''] 0
     = Some [''Directory: root'', ''Directory: home'', ''Directory: user'',
             ''File: file1.txt'', ''File: file2.txt'', ''File: file3.txt'']"
  by (simp add: eval_nat_numeral lookup_def)

text \<open>
  C6. A \<open>File\<close> prints the one line \<open>"File: "\<close> with its name. For a \<open>Directory\<close> \<open>d\<close>
  whose components form a finite tree, \<open>show_details\<close> returns once the depth bound is
  large enough, and it prints \<open>"Directory: "\<close> with the name of \<open>d\<close> and then, child after
  child in the order of \<open>components\<close>, what \<open>show_details\<close> prints for the child. \<open>add\<close>
  puts a child at the end of \<open>components\<close>, so this order is the order of adding. The
  snippet prints root, home, user, file1.txt, file2.txt, file3.txt.
\<close>

theorem show_details_preorder:
  "(lookup h f = Some (File n) \<longrightarrow> show_details (Suc k) h f = Some [''File: '' @ n])
   \<and> (finite_tree h d \<and> lookup h d = Some (Directory m cs) \<longrightarrow>
        (\<exists>K outs. length outs = length cs
           \<and> (\<forall>k' \<ge> K. show_details k' h d = Some ((''Directory: '' @ m) # concat outs)
                 \<and> (\<forall>i < length cs. show_details k' h (cs ! i) = Some (outs ! i)))))
   \<and> (lookup h d = Some (Directory m cs) \<longrightarrow>
        add h d c = (Inr (), h[d := Directory m (cs @ [c])]))
   \<and> (\<exists>root hd. file_system_demo = Some (root, hd) \<and> finite_tree hd root
        \<and> show_details 4 hd root
            = Some [''Directory: root'', ''Directory: home'', ''Directory: user'',
                    ''File: file1.txt'', ''File: file2.txt'', ''File: file3.txt''])"
proof -
  have leaf_case: "show_details (Suc k) h f = Some [''File: '' @ n]" if "lookup h f = Some (File n)"
    using that by simp
  have dir: "\<exists>K outs. length outs = length cs
           \<and> (\<forall>k' \<ge> K. show_details k' h d = Some ((''Directory: '' @ m) # concat outs)
                 \<and> (\<forall>i < length cs. show_details k' h (cs ! i) = Some (outs ! i)))"
    if t: "finite_tree h d" and l: "lookup h d = Some (Directory m cs)"
  proof -
    from t l have "\<forall>c \<in> set cs. finite_tree h c"
      by (cases rule: finite_tree.cases) auto
    then have "\<forall>c \<in> set cs. \<exists>k ls. \<forall>k' \<ge> k. show_details k' h c = Some ls"
      using show_details_enough_fuel by blast
    then obtain fk fl where f: "\<forall>c \<in> set cs. \<forall>k' \<ge> fk c. show_details k' h c = Some (fl c)"
      by metis
    define K where "K = Suc (sum_list (map fk cs))"
    have bound: "fk c \<le> sum_list (map fk cs)" if "c \<in> set cs" for c
      using that by (simp add: member_le_sum_list)
    have "show_details k' h d = Some ((''Directory: '' @ m) # concat (map fl cs))
        \<and> (\<forall>i < length cs. show_details k' h (cs ! i) = Some (map fl cs ! i))" if "K \<le> k'" for k'
    proof -
      from that obtain j where k': "k' = Suc j" and j: "sum_list (map fk cs) \<le> j"
        by (cases k') (auto simp: K_def)
      have "\<And>c. c \<in> set cs \<Longrightarrow> show_details j h c = Some (fl c)"
        using f bound j by (meson order_trans)
      then have "those (map (show_details j h) cs) = Some (map fl cs)"
        by (rule those_map_Some)
      then have a: "show_details k' h d = Some ((''Directory: '' @ m) # concat (map fl cs))"
        using l k' by simp
      have "show_details k' h c = Some (fl c)" if "c \<in> set cs" for c
        using f bound [OF that] j k' that by (meson le_SucI order_trans)
      then have b: "\<forall>i < length cs. show_details k' h (cs ! i) = Some (map fl cs ! i)"
        by simp
      from a b show ?thesis by blast
    qed
    then have "length (map fl cs) = length cs
           \<and> (\<forall>k' \<ge> K. show_details k' h d = Some ((''Directory: '' @ m) # concat (map fl cs))
                 \<and> (\<forall>i < length cs. show_details k' h (cs ! i) = Some (map fl cs ! i)))"
      by simp
    then show ?thesis by blast
  qed
  have app: "add h d c = (Inr (), h[d := Directory m (cs @ [c])])"
    if "lookup h d = Some (Directory m cs)"
    using that by (simp add: add_def)
  have demo: "\<exists>root hd. file_system_demo = Some (root, hd) \<and> finite_tree hd root
        \<and> show_details 4 hd root
            = Some [''Directory: root'', ''Directory: home'', ''Directory: user'',
                    ''File: file1.txt'', ''File: file2.txt'', ''File: file3.txt'']"
    using file_system_demo_heap file_system_demo_tree file_system_demo_output by blast
  from leaf_case dir app demo show ?thesis by blast
qed

theorem show_details_preorder_witness:
  "lookup [Directory ''root'' [1, 2], File ''a'', File ''b''] 1 = Some (File ''a'')
   \<and> show_details (Suc 0) [Directory ''root'' [1, 2], File ''a'', File ''b''] 1 = Some [''File: a'']
   \<and> finite_tree [Directory ''root'' [1, 2], File ''a'', File ''b''] 0
   \<and> lookup [Directory ''root'' [1, 2], File ''a'', File ''b''] 0 = Some (Directory ''root'' [1, 2])
   \<and> (\<exists>K outs. length outs = length [1::nat, 2]
         \<and> (\<forall>k' \<ge> K. show_details k' [Directory ''root'' [1, 2], File ''a'', File ''b''] 0
                          = Some ((''Directory: '' @ ''root'') # concat outs)
               \<and> (\<forall>i < length [1::nat, 2].
                     show_details k' [Directory ''root'' [1, 2], File ''a'', File ''b''] ([1, 2] ! i)
                       = Some (outs ! i))))
   \<and> add [Directory ''root'' [1, 2], File ''a'', File ''b''] 0 1
       = (Inr (), [Directory ''root'' [1, 2, 1], File ''a'', File ''b''])"
    (is "?A \<and> ?B \<and> ?C \<and> ?D \<and> ?E \<and> ?F")
proof -
  let ?H = "[Directory ''root'' [1, 2], File ''a'', File ''b'']"
  have a: ?A by (simp add: lookup_def)
  have d: ?D by (simp add: lookup_def)
  have f1: "finite_tree ?H 1" by (rule finite_tree.leaf [where n = "''a''"]) (simp add: lookup_def)
  have f2: "finite_tree ?H 2" by (rule finite_tree.leaf [where n = "''b''"]) (simp add: lookup_def)
  have c: ?C
    by (rule finite_tree.node [where n = "''root''" and cs = "[1, 2]"]) (use f1 f2 in \<open>auto simp: lookup_def\<close>)
  note inst = show_details_preorder [of ?H 1 "''a''" 0 0 "''root''" "[1, 2]" 1]
  from inst a have b: ?B by simp
  from inst c d have e: ?E by blast
  from inst d have f: ?F by simp
  from a b c d e f show ?thesis by blast
qed

lemma list_remove_absent: "c \<notin> set cs \<Longrightarrow> list_remove c cs = Inl ValueError"
  by (induction cs) auto

lemma list_remove_present:
  "c \<in> set cs \<Longrightarrow>
     \<exists>pre post. cs = pre @ c # post \<and> c \<notin> set pre \<and> list_remove c cs = Inr (pre @ post)"
proof (induction cs)
  case Nil
  then show ?case by simp
next
  case (Cons y ys)
  show ?case
  proof (cases "y = c")
    case True
    then have "y # ys = [] @ c # ys \<and> c \<notin> set [] \<and> list_remove c (y # ys) = Inr ([] @ ys)"
      by simp
    then show ?thesis by blast
  next
    case False
    with Cons.prems have "c \<in> set ys" by simp
    from Cons.IH [OF this] obtain pre post
      where *: "ys = pre @ c # post" "c \<notin> set pre" "list_remove c ys = Inr (pre @ post)"
      by blast
    from * False
    have "y # ys = (y # pre) @ c # post \<and> c \<notin> set (y # pre)
        \<and> list_remove c (y # ys) = Inr ((y # pre) @ post)"
      by auto
    then show ?thesis by blast
  qed
qed

text \<open>
  C10. Let \<open>d\<close> be a \<open>Directory\<close> with the children \<open>cs\<close>. When \<open>c\<close> is not among
  them, \<open>d.remove(c)\<close> raises \<open>ValueError\<close> and the heap, hence the children of \<open>d\<close>, is
  as before. When \<open>c\<close> is among them, the call removes the first occurrence of \<open>c\<close>: the
  children before it and after it stay, in their order, and no other object changes.
\<close>

theorem remove_first_occurrence:
  "lookup h d = Some (Directory n cs) \<Longrightarrow>
     (c \<notin> set cs \<longrightarrow> remove h d c = (Inl ValueError, h))
     \<and> (c \<in> set cs \<longrightarrow>
          (\<exists>pre post. cs = pre @ c # post \<and> c \<notin> set pre
             \<and> remove h d c = (Inr (), h[d := Directory n (pre @ post)])
             \<and> lookup (h[d := Directory n (pre @ post)]) d = Some (Directory n (pre @ post))))"
proof -
  assume d: "lookup h d = Some (Directory n cs)"
  have absent: "remove h d c = (Inl ValueError, h)" if "c \<notin> set cs"
    using d list_remove_absent [OF that] by (simp add: remove_def)
  have present: "\<exists>pre post. cs = pre @ c # post \<and> c \<notin> set pre
             \<and> remove h d c = (Inr (), h[d := Directory n (pre @ post)])
             \<and> lookup (h[d := Directory n (pre @ post)]) d = Some (Directory n (pre @ post))"
    if "c \<in> set cs"
  proof -
    from list_remove_present [OF that] obtain pre post
      where *: "cs = pre @ c # post" "c \<notin> set pre" "list_remove c cs = Inr (pre @ post)"
      by blast
    have "remove h d c = (Inr (), h[d := Directory n (pre @ post)])"
      using d *(3) by (simp add: remove_def)
    moreover have "lookup (h[d := Directory n (pre @ post)]) d = Some (Directory n (pre @ post))"
      using d by (auto simp: lookup_def split: if_splits)
    ultimately show ?thesis using *(1,2) by blast
  qed
  from absent present show ?thesis by blast
qed

theorem remove_first_occurrence_witness:
  "lookup [Directory ''root'' [1, 2, 1], File ''a'', File ''b''] 0 = Some (Directory ''root'' [1, 2, 1])
   \<and> remove [Directory ''root'' [1, 2, 1], File ''a'', File ''b''] 0 7
       = (Inl ValueError, [Directory ''root'' [1, 2, 1], File ''a'', File ''b''])
   \<and> (\<exists>pre post. [1, 2, 1] = pre @ (1::nat) # post \<and> 1 \<notin> set pre
        \<and> remove [Directory ''root'' [1, 2, 1], File ''a'', File ''b''] 0 1
            = (Inr (), [Directory ''root'' [1, 2, 1], File ''a'', File ''b''][0 := Directory ''root'' (pre @ post)]))
   \<and> remove [Directory ''root'' [1, 2, 1], File ''a'', File ''b''] 0 1
       = (Inr (), [Directory ''root'' [2, 1], File ''a'', File ''b''])"
proof -
  have d: "lookup [Directory ''root'' [1, 2, 1], File ''a'', File ''b''] 0 = Some (Directory ''root'' [1, 2, 1])"
    by (simp add: lookup_def)
  have run: "remove [Directory ''root'' [1, 2, 1], File ''a'', File ''b''] 0 1
       = (Inr (), [Directory ''root'' [2, 1], File ''a'', File ''b''])"
    by (simp add: remove_def lookup_def)
  from remove_first_occurrence [OF d, of 7] remove_first_occurrence [OF d, of 1] d run
  show ?thesis by auto
qed

section \<open>Builder: results\<close>

lemma product_of_D:
  "product_of h m = Some p \<Longrightarrow>
     \<exists>b p1 p2 p3. lookup h m = Some (MealBuilder b) \<and> lookup h b = Some (Builder p)
        \<and> lookup h p = Some (Product p1 p2 p3)"
  by (auto simp: product_of_def split: option.splits meal_object.splits)

lemma lookup_update:
  "lookup (h[a := x]) b = (if b < length h then (if a = b then Some x else lookup h b) else None)"
  by (auto simp: lookup_def)

lemma prepare_veg_meal_result:
  assumes "lookup h m = Some (MealBuilder b)" and "lookup h b = Some (Builder p)"
    and "lookup h p = Some (Product p1 p2 p3)"
  shows "prepare_veg_meal h m
     = Some (p, h[p := Product (Some ''Salad'') (Some ''Vegetable Curry'') (Some ''Rice'')])"
proof -
  have ne: "b \<noteq> p" "m \<noteq> p" using assms by auto
  have lt: "p < length h" "b < length h" using assms by (auto simp: lookup_def split: if_splits)
  show ?thesis
    using assms ne lt
    by (simp add: prepare_veg_meal_def build_part1_def build_part2_def build_part3_def
        get_product_def lookup_update)
qed

lemma prepare_non_veg_meal_result:
  assumes "lookup h m = Some (MealBuilder b)" and "lookup h b = Some (Builder p)"
    and "lookup h p = Some (Product p1 p2 p3)"
  shows "prepare_non_veg_meal h m
     = Some (p, h[p := Product (Some ''Chicken Soup'') (Some ''Grilled Chicken'') (Some ''Chicken Tikka'')])"
proof -
  have ne: "b \<noteq> p" "m \<noteq> p" using assms by auto
  have lt: "p < length h" "b < length h" using assms by (auto simp: lookup_def split: if_splits)
  show ?thesis
    using assms ne lt
    by (simp add: prepare_non_veg_meal_def build_part1_def build_part2_def build_part3_def
        get_product_def lookup_update)
qed

text \<open>
  C8. A \<open>MealBuilder\<close> made by the constructor reaches one \<open>Product\<close> through its
  builder. For every \<open>MealBuilder\<close> \<open>m\<close> that reaches the product \<open>p\<close>:
  \<open>prepare_veg_meal\<close> returns \<open>p\<close>, holding the veg parts; \<open>prepare_non_veg_meal\<close>
  called next returns the same \<open>p\<close>, and then \<open>p\<close>, which is what \<open>veg_meal\<close> refers to,
  holds \<open>"Chicken Soup"\<close>, \<open>"Grilled Chicken"\<close> and \<open>"Chicken Tikka"\<close>; \<open>m\<close> still reaches
  \<open>p\<close>.
\<close>

theorem meals_share_one_product:
  "(MealBuilder_init h0 = (m0, h') \<longrightarrow> product_of h' m0 = Some (length h0))
   \<and> (product_of h m = Some p \<longrightarrow>
        (\<exists>h1 h2. prepare_veg_meal h m = Some (p, h1)
           \<and> lookup h1 p = Some (Product (Some ''Salad'') (Some ''Vegetable Curry'') (Some ''Rice''))
           \<and> prepare_non_veg_meal h1 m = Some (p, h2)
           \<and> lookup h2 p
               = Some (Product (Some ''Chicken Soup'') (Some ''Grilled Chicken'') (Some ''Chicken Tikka''))
           \<and> product_of h2 m = Some p))"
proof -
  have init: "product_of h' m0 = Some (length h0)" if "MealBuilder_init h0 = (m0, h')"
    using that
    by (auto simp: MealBuilder_init_def Builder_init_def Product_init_def alloc_def
        product_of_def lookup_def nth_append)
  have run: "\<exists>h1 h2. prepare_veg_meal h m = Some (p, h1)
           \<and> lookup h1 p = Some (Product (Some ''Salad'') (Some ''Vegetable Curry'') (Some ''Rice''))
           \<and> prepare_non_veg_meal h1 m = Some (p, h2)
           \<and> lookup h2 p
               = Some (Product (Some ''Chicken Soup'') (Some ''Grilled Chicken'') (Some ''Chicken Tikka''))
           \<and> product_of h2 m = Some p"
    if "product_of h m = Some p"
  proof -
    from product_of_D [OF that] obtain b p1 p2 p3
      where l: "lookup h m = Some (MealBuilder b)" "lookup h b = Some (Builder p)"
        "lookup h p = Some (Product p1 p2 p3)"
      by blast
    have ne: "b \<noteq> p" "m \<noteq> p" using l by auto
    have lt: "p < length h" "b < length h" "m < length h"
      using l by (auto simp: lookup_def split: if_splits)
    let ?h1 = "h[p := Product (Some ''Salad'') (Some ''Vegetable Curry'') (Some ''Rice'')]"
    let ?h2 = "?h1[p := Product (Some ''Chicken Soup'') (Some ''Grilled Chicken'') (Some ''Chicken Tikka'')]"
    have v: "prepare_veg_meal h m = Some (p, ?h1)"
      by (rule prepare_veg_meal_result [OF l])
    have l1: "lookup ?h1 m = Some (MealBuilder b)" "lookup ?h1 b = Some (Builder p)"
      "lookup ?h1 p = Some (Product (Some ''Salad'') (Some ''Vegetable Curry'') (Some ''Rice''))"
      using l ne lt by (simp_all add: lookup_update)
    have nv: "prepare_non_veg_meal ?h1 m = Some (p, ?h2)"
      by (rule prepare_non_veg_meal_result [OF l1])
    have l2: "lookup ?h2 p
        = Some (Product (Some ''Chicken Soup'') (Some ''Grilled Chicken'') (Some ''Chicken Tikka''))"
      using lt by (simp add: lookup_update)
    have p2: "product_of ?h2 m = Some p"
      using l ne lt by (simp add: product_of_def lookup_update)
    from v l1(3) nv l2 p2 show ?thesis by blast
  qed
  from init run show ?thesis by blast
qed

theorem meals_share_one_product_witness:
  "MealBuilder_init [] = (2, [Product None None None, Builder 0, MealBuilder 1])
   \<and> product_of [Product None None None, Builder 0, MealBuilder 1] 2 = Some 0
   \<and> (\<exists>h1 h2. prepare_veg_meal [Product None None None, Builder 0, MealBuilder 1] 2 = Some (0, h1)
        \<and> lookup h1 0 = Some (Product (Some ''Salad'') (Some ''Vegetable Curry'') (Some ''Rice''))
        \<and> prepare_non_veg_meal h1 2 = Some (0, h2)
        \<and> lookup h2 0
            = Some (Product (Some ''Chicken Soup'') (Some ''Grilled Chicken'') (Some ''Chicken Tikka''))
        \<and> product_of h2 2 = Some 0)"
proof -
  have i: "MealBuilder_init [] = (2, [Product None None None, Builder 0, MealBuilder 1])"
    by (simp add: MealBuilder_init_def Builder_init_def Product_init_def alloc_def)
  note inst = meals_share_one_product [of "[]" 2 "[Product None None None, Builder 0, MealBuilder 1]"
      "[Product None None None, Builder 0, MealBuilder 1]" 2 0]
  from inst i have p: "product_of [Product None None None, Builder 0, MealBuilder 1] 2 = Some 0"
    by simp
  from inst p i show ?thesis by blast
qed

section \<open>Proxy: results\<close>

lemma first_play:
  assumes "VideoProxy_init st0 f = (p, st)"
  shows "VideoProxy_play st p
     = Some \<lparr>videos = videos st0 @ [VideoProxy f (Some (Suc p)), RealVideo f],
             printed = printed st0 @ [''RealVideo: Loading video '' @ f,
                                      ''RealVideo: Playing video '' @ f]\<rparr>"
  using assms
  by (auto simp: VideoProxy_init_def VideoProxy_play_def RealVideo_init_def load_video_def
      RealVideo_play_def alloc_def lookup_def nth_append Let_def)

lemma later_play:
  assumes "lookup (videos st) p = Some (VideoProxy f (Some r))"
    and "lookup (videos st) r = Some (RealVideo f)"
  shows "VideoProxy_play st p = Some (st\<lparr>printed := printed st @ [''RealVideo: Playing video '' @ f]\<rparr>)"
  using assms by (simp add: VideoProxy_play_def RealVideo_play_def)

lemma plays_loaded:
  "lookup (videos st) p = Some (VideoProxy f (Some r)) \<Longrightarrow>
   lookup (videos st) r = Some (RealVideo f) \<Longrightarrow>
     plays n st p = Some (st\<lparr>printed := printed st @ replicate n (''RealVideo: Playing video '' @ f)\<rparr>)"
proof (induction n arbitrary: st)
  case 0
  then show ?case by simp
next
  case (Suc n)
  define L where "L = ''RealVideo: Playing video '' @ f"
  let ?st1 = "st\<lparr>printed := printed st @ [L]\<rparr>"
  have step: "VideoProxy_play st p = Some ?st1"
    unfolding L_def by (rule later_play [OF Suc.prems])
  have "plays n ?st1 p = Some (?st1\<lparr>printed := printed ?st1 @ replicate n L\<rparr>)"
    unfolding L_def by (rule Suc.IH) (use Suc.prems in simp_all)
  then have "plays (Suc n) st p = Some (st\<lparr>printed := printed st @ replicate (Suc n) L\<rparr>)"
    using step by simp
  then show ?case unfolding L_def .
qed

text \<open>
  C9. Let \<open>p\<close> be a \<open>VideoProxy\<close> just constructed with the filename \<open>f\<close>. The
  constructor creates no \<open>RealVideo\<close> and leaves \<open>_real_video\<close> at \<open>None\<close>, and so it is
  before the first \<open>play()\<close>. After any number \<open>n + 1\<close> of calls of \<open>play()\<close> one
  \<open>RealVideo\<close> has been created, with the filename \<open>f\<close>; \<open>_real_video\<close> is this object; the
  line \<open>Loading video\<close> has been printed once, by the first call, and the line
  \<open>Playing video\<close> once by every call.
\<close>

theorem proxy_loads_once:
  "VideoProxy_init st0 f = (p, st) \<Longrightarrow>
     videos st = videos st0 @ [VideoProxy f None] \<and> printed st = printed st0
     \<and> lookup (videos st) p = Some (VideoProxy f None)
     \<and> plays 0 st p = Some st
     \<and> plays (Suc n) st p
         = Some \<lparr>videos = videos st0 @ [VideoProxy f (Some (Suc p)), RealVideo f],
                 printed = printed st0 @ (''RealVideo: Loading video '' @ f)
                             # replicate (Suc n) (''RealVideo: Playing video '' @ f)\<rparr>"
proof -
  assume i: "VideoProxy_init st0 f = (p, st)"
  then have p: "p = length (videos st0)" and v: "videos st = videos st0 @ [VideoProxy f None]"
    and pr: "printed st = printed st0"
    by (auto simp: VideoProxy_init_def alloc_def)
  have l: "lookup (videos st) p = Some (VideoProxy f None)"
    using p v by (simp add: lookup_def)
  let ?s1 = "\<lparr>videos = videos st0 @ [VideoProxy f (Some (Suc p)), RealVideo f],
             printed = printed st0 @ [''RealVideo: Loading video '' @ f,
                                      ''RealVideo: Playing video '' @ f]\<rparr>"
  have l1: "lookup (videos ?s1) p = Some (VideoProxy f (Some (Suc p)))"
    "lookup (videos ?s1) (Suc p) = Some (RealVideo f)"
    using p by (simp_all add: lookup_def nth_append)
  have "plays (Suc n) st p = plays n ?s1 p"
    using first_play [OF i] by simp
  also have "\<dots> = Some (?s1\<lparr>printed := printed ?s1 @ replicate n (''RealVideo: Playing video '' @ f)\<rparr>)"
    by (rule plays_loaded [OF l1])
  finally have "plays (Suc n) st p
         = Some \<lparr>videos = videos st0 @ [VideoProxy f (Some (Suc p)), RealVideo f],
                 printed = printed st0 @ (''RealVideo: Loading video '' @ f)
                             # replicate (Suc n) (''RealVideo: Playing video '' @ f)\<rparr>"
    by simp
  with v pr l show ?thesis by simp
qed

theorem proxy_loads_once_witness:
  "VideoProxy_init \<lparr>videos = [], printed = [''Client: Requesting to play video through proxy:'']\<rparr>
       ''example.mp4''
     = (0, \<lparr>videos = [VideoProxy ''example.mp4'' None],
             printed = [''Client: Requesting to play video through proxy:'']\<rparr>)
   \<and> plays (Suc 0) \<lparr>videos = [VideoProxy ''example.mp4'' None],
             printed = [''Client: Requesting to play video through proxy:'']\<rparr> 0
       = Some \<lparr>videos = [VideoProxy ''example.mp4'' (Some 1), RealVideo ''example.mp4''],
               printed = [''Client: Requesting to play video through proxy:'',
                          ''RealVideo: Loading video example.mp4'',
                          ''RealVideo: Playing video example.mp4'']\<rparr>
   \<and> plays (Suc 2) \<lparr>videos = [VideoProxy ''example.mp4'' None],
             printed = [''Client: Requesting to play video through proxy:'']\<rparr> 0
       = Some \<lparr>videos = [VideoProxy ''example.mp4'' (Some 1), RealVideo ''example.mp4''],
               printed = [''Client: Requesting to play video through proxy:'',
                          ''RealVideo: Loading video example.mp4'',
                          ''RealVideo: Playing video example.mp4'',
                          ''RealVideo: Playing video example.mp4'',
                          ''RealVideo: Playing video example.mp4'']\<rparr>"
proof -
  have i: "VideoProxy_init \<lparr>videos = [], printed = [''Client: Requesting to play video through proxy:'']\<rparr>
       ''example.mp4''
     = (0, \<lparr>videos = [VideoProxy ''example.mp4'' None],
             printed = [''Client: Requesting to play video through proxy:'']\<rparr>)"
    by (simp add: VideoProxy_init_def alloc_def)
  from proxy_loads_once [OF i, of 0] proxy_loads_once [OF i, of 2] i show ?thesis
    by (simp add: numeral_2_eq_2)
qed

end
